theory Spec2Isabelle
  imports Main "HOL-Library.Word" "HOL-Library.Monad_Syntax"
begin

section \<open>Strings: the operations of Go's \<open>strings\<close> and \<open>bytes\<close> packages that the crawler uses\<close>

text \<open>
  A Go string and a Go byte slice are both sequences of bytes; they are modelled as
  \<^typ>\<open>string\<close>, whose characters are bytes.
\<close>

definition HasPrefix :: "string \<Rightarrow> string \<Rightarrow> bool" where
  "HasPrefix s p = (take (length p) s = p)"

definition HasSuffix :: "string \<Rightarrow> string \<Rightarrow> bool" where
  "HasSuffix s p = (length p \<le> length s \<and> drop (length s - length p) s = p)"

fun Contains :: "string \<Rightarrow> string \<Rightarrow> bool" where
  "Contains [] sub = (sub = [])"
| "Contains (c # s) sub = (HasPrefix (c # s) sub \<or> Contains s sub)"

text \<open>
  \<open>strings.ToLower\<close> on the ASCII range: the letters \<open>A\<close> to \<open>Z\<close> are mapped to
  \<open>a\<close> to \<open>z\<close>, every other byte is kept. This is what Go does to a string of ASCII
  bytes; in a string with other bytes Go also lowercases the letters outside ASCII, which
  the model keeps. The strings lowercased by the crawler are URLs; serialized by
  \<open>String\<close>, a URL is ASCII outside its raw query and its opaque part.
\<close>

definition lowerByte :: "char \<Rightarrow> char" where
  "lowerByte c = (let n = (of_char c :: nat) in if 65 \<le> n \<and> n \<le> 90 then char_of (n + 32) else c)"

definition ToLower :: "string \<Rightarrow> string" where
  "ToLower s = map lowerByte s"

text \<open>\<open>strings.Split(s, sep)\<close> for a separator of one byte: one more piece than separators.\<close>

fun Split :: "string \<Rightarrow> char \<Rightarrow> string list" where
  "Split [] sep = [[]]"
| "Split (c # s) sep =
     (if c = sep then [] # Split s sep
      else (case Split s sep of [] \<Rightarrow> [[c]] | h # t \<Rightarrow> (c # h) # t))"

text \<open>\<open>strings.Index(s, c)\<close> for a pattern of one byte: the first position, or \<open>-1\<close>.\<close>

fun IndexByte :: "string \<Rightarrow> char \<Rightarrow> int" where
  "IndexByte [] c = -1"
| "IndexByte (x # xs) c =
     (if x = c then 0 else (let r = IndexByte xs c in if r = -1 then -1 else r + 1))"




text \<open>
  \<open>strings.TrimSpace\<close> removes at both ends the characters that \<open>unicode.IsSpace\<close>
  accepts: tab, line feed, vertical tab, form feed, carriage return and space, and, in
  their UTF-8 encoding, U+0085, U+00A0, U+1680, U+2000 to U+200A, U+2028, U+2029, U+202F,
  U+205F and U+3000. The string is trimmed at its start first, and the rest at its end.
\<close>

definition isSpace :: "char \<Rightarrow> bool" where
  "isSpace c = (c = CHR 0x09 \<or> c = CHR 0x0A \<or> c = CHR 0x0B \<or> c = CHR 0x0C \<or> c = CHR 0x0D \<or>
                c = CHR '' '')"

definition isSpace2 :: "char \<Rightarrow> char \<Rightarrow> bool" where
  "isSpace2 a b = (a = CHR 0xC2 \<and> (b = CHR 0x85 \<or> b = CHR 0xA0))"

definition isSpace3 :: "char \<Rightarrow> char \<Rightarrow> char \<Rightarrow> bool" where
  "isSpace3 a b c =
     ((a = CHR 0xE1 \<and> b = CHR 0x9A \<and> c = CHR 0x80) \<or>
      (a = CHR 0xE2 \<and> b = CHR 0x80 \<and>
         ((0x80 \<le> (of_char c :: nat) \<and> (of_char c :: nat) \<le> 0x8A) \<or>
          c = CHR 0xA8 \<or> c = CHR 0xA9 \<or> c = CHR 0xAF)) \<or>
      (a = CHR 0xE2 \<and> b = CHR 0x81 \<and> c = CHR 0x9F) \<or>
      (a = CHR 0xE3 \<and> b = CHR 0x80 \<and> c = CHR 0x80))"

fun TrimLeftSpace :: "string \<Rightarrow> string" where
  "TrimLeftSpace (a # b # c # s) =
     (if isSpace a then TrimLeftSpace (b # c # s)
      else if isSpace2 a b then TrimLeftSpace (c # s)
      else if isSpace3 a b c then TrimLeftSpace s
      else a # b # c # s)"
| "TrimLeftSpace [a, b] =
     (if isSpace a then TrimLeftSpace [b] else if isSpace2 a b then [] else [a, b])"
| "TrimLeftSpace [a] = (if isSpace a then [] else [a])"
| "TrimLeftSpace [] = []"

text \<open>Trimming at the end, on the reversed string: its first bytes are the last ones.\<close>

fun TrimRightSpaceRev :: "string \<Rightarrow> string" where
  "TrimRightSpaceRev (c # b # a # s) =
     (if isSpace c then TrimRightSpaceRev (b # a # s)
      else if isSpace2 b c then TrimRightSpaceRev (a # s)
      else if isSpace3 a b c then TrimRightSpaceRev s
      else c # b # a # s)"
| "TrimRightSpaceRev [c, b] =
     (if isSpace c then TrimRightSpaceRev [b] else if isSpace2 b c then [] else [c, b])"
| "TrimRightSpaceRev [c] = (if isSpace c then [] else [c])"
| "TrimRightSpaceRev [] = []"

definition TrimSpace :: "string \<Rightarrow> string" where
  "TrimSpace s = rev (TrimRightSpaceRev (rev (TrimLeftSpace s)))"

text \<open>The verb \<open>%d\<close> of \<open>fmt.Sprintf\<close>: an integer in decimal.\<close>

definition digitChar :: "nat \<Rightarrow> char" where
  "digitChar n = ''0123456789'' ! n"

fun digitsOf :: "nat \<Rightarrow> string" where
  "digitsOf n =
     (if n < 10 then [digitChar n] else digitsOf (n div 10) @ [digitChar (n mod 10)])"

declare digitsOf.simps [simp del]

definition decimal :: "int \<Rightarrow> string" where
  "decimal i = (if i < 0 then CHR ''-'' # digitsOf (nat (- i)) else digitsOf (nat i))"

section \<open>Percent-escaping (Go's \<open>net/url\<close>)\<close>

text \<open>
  The crawler parses and serializes URLs with the package \<open>net/url\<close> of the Go standard
  library, which is not part of the repository. Its functions are modelled as they are in
  Go 1.24.7, the toolchain that the repository names; they work on bytes.
\<close>

definition isLetter :: "char \<Rightarrow> bool" where
  "isLetter c = (let n = (of_char c :: nat) in (97 \<le> n \<and> n \<le> 122) \<or> (65 \<le> n \<and> n \<le> 90))"

definition isDigit :: "char \<Rightarrow> bool" where
  "isDigit c = (let n = (of_char c :: nat) in 48 \<le> n \<and> n \<le> 57)"

text \<open>The parts of a URL that are escaped differently.\<close>

datatype encoding = encodePath | encodePathSegment | encodeHost | encodeZone
  | encodeUserPassword | encodeQueryComponent | encodeFragment

definition ishex :: "char \<Rightarrow> bool" where
  "ishex c = (let n = (of_char c :: nat)
              in (48 \<le> n \<and> n \<le> 57) \<or> (97 \<le> n \<and> n \<le> 102) \<or> (65 \<le> n \<and> n \<le> 70))"

definition unhex :: "char \<Rightarrow> nat" where
  "unhex c = (let n = (of_char c :: nat)
              in if 48 \<le> n \<and> n \<le> 57 then n - 48
                 else if 97 \<le> n \<and> n \<le> 102 then n - 97 + 10
                 else if 65 \<le> n \<and> n \<le> 70 then n - 65 + 10
                 else 0)"

text \<open>
  \<open>shouldEscape\<close>: letters and digits are never escaped; a host keeps the sub-delimiters,
  the colon, brackets, angle brackets and the double quote; the marks \<open>-_.~\<close> are never
  escaped; of the reserved characters each part keeps its own; a fragment also keeps
  \<open>!()*\<close>; every other byte is escaped.
\<close>

definition shouldEscape :: "char \<Rightarrow> encoding \<Rightarrow> bool" where
  "shouldEscape c mode =
     (if isLetter c \<or> isDigit c then False
      else if (mode = encodeHost \<or> mode = encodeZone) \<and>
              (c \<in> set ''!$&()*+,;=:[]<>'' \<or> c = CHR 0x27 \<or> c = CHR 0x22) then False
      else if c \<in> set ''-_.~'' then False
      else if c \<in> set ''$&+,/:;=?@'' \<and> mode = encodePath then c = CHR ''?''
      else if c \<in> set ''$&+,/:;=?@'' \<and> mode = encodePathSegment then c \<in> set ''/;,?''
      else if c \<in> set ''$&+,/:;=?@'' \<and> mode = encodeUserPassword then c \<in> set ''@/?:''
      else if c \<in> set ''$&+,/:;=?@'' \<and> mode = encodeQueryComponent then True
      else if c \<in> set ''$&+,/:;=?@'' \<and> mode = encodeFragment then False
      else if mode = encodeFragment \<and> c \<in> set ''!()*'' then False
      else True)"

text \<open>
  \<open>unescape\<close> first checks the string: every \<open>%\<close> is followed by two hexadecimal digits;
  in a host only bytes from \<open>0x80\<close> and \<open>%25\<close> may be escaped; in a zone only \<open>%25\<close>, the
  space and bytes that a host may hold; and a host or zone holds no ASCII byte that must be
  escaped. Then it decodes.
\<close>

fun unescapeCheck :: "encoding \<Rightarrow> string \<Rightarrow> bool" where
  "unescapeCheck mode [] = True"
| "unescapeCheck mode (c # s) =
     (if c = CHR ''%'' then
        (case s of
           h1 # h2 # s' \<Rightarrow>
             if \<not> ishex h1 \<or> \<not> ishex h2 then False
             else if mode = encodeHost \<and> unhex h1 < 8 \<and> [c, h1, h2] \<noteq> ''%25'' then False
             else if mode = encodeZone \<and> [c, h1, h2] \<noteq> ''%25'' \<and>
                     char_of (unhex h1 * 16 + unhex h2) \<noteq> CHR '' '' \<and>
                     shouldEscape (char_of (unhex h1 * 16 + unhex h2)) encodeHost then False
             else unescapeCheck mode s'
         | _ \<Rightarrow> False)
      else if (mode = encodeHost \<or> mode = encodeZone) \<and> (of_char c :: nat) < 128 \<and>
              c \<noteq> CHR ''+'' \<and> shouldEscape c encodeHost then False
      else unescapeCheck mode s)"

fun unescapeBytes :: "encoding \<Rightarrow> string \<Rightarrow> string" where
  "unescapeBytes mode [] = []"
| "unescapeBytes mode (c # s) =
     (if c = CHR ''%'' then
        (case s of
           h1 # h2 # s' \<Rightarrow> char_of (unhex h1 * 16 + unhex h2) # unescapeBytes mode s'
         | _ \<Rightarrow> [])
      else if c = CHR ''+'' \<and> mode = encodeQueryComponent then CHR '' '' # unescapeBytes mode s
      else c # unescapeBytes mode s)"

definition unescape :: "string \<Rightarrow> encoding \<Rightarrow> string option" where
  "unescape s mode = (if unescapeCheck mode s then Some (unescapeBytes mode s) else None)"

definition upperhex :: "nat \<Rightarrow> char" where
  "upperhex n = ''0123456789ABCDEF'' ! n"

definition escapeByte :: "encoding \<Rightarrow> char \<Rightarrow> string" where
  "escapeByte mode c =
     (if shouldEscape c mode then
        (if c = CHR '' '' \<and> mode = encodeQueryComponent then ''+''
         else [CHR ''%'', upperhex ((of_char c :: nat) div 16), upperhex ((of_char c :: nat) mod 16)])
      else [c])"

definition escape :: "string \<Rightarrow> encoding \<Rightarrow> string" where
  "escape s mode = concat (map (escapeByte mode) s)"

text \<open>\<open>validEncoded\<close>: whether a raw path or fragment can be written as it is.\<close>

definition validEncoded :: "string \<Rightarrow> encoding \<Rightarrow> bool" where
  "validEncoded s mode =
     list_all (\<lambda>c. c \<in> set ''!$&()*+,;=:@[]%'' \<or> c = CHR 0x27 \<or> \<not> shouldEscape c mode) s"

section \<open>Parsed URLs\<close>

text \<open>The type \<open>url.Userinfo\<close> and its method \<open>String\<close>.\<close>

record Userinfo =
  username :: string
  password :: string
  passwordSet :: bool

definition Userinfo_String :: "Userinfo \<Rightarrow> string" where
  "Userinfo_String ui =
     escape (username ui) encodeUserPassword @
     (if passwordSet ui then '':'' @ escape (password ui) encodeUserPassword else [])"

text \<open>The fields of \<open>url.URL\<close>; \<open>User\<close> is \<open>None\<close> for a nil pointer.\<close>

record url =
  Scheme :: string
  Opaque :: string
  User :: "Userinfo option"
  Host :: string
  Path :: string
  RawPath :: string
  OmitHost :: bool
  ForceQuery :: bool
  RawQuery :: string
  Fragment :: string
  RawFragment :: string

text \<open>
  \<open>EscapedPath\<close> and \<open>EscapedFragment\<close>: the raw form when it is a valid encoding of the
  decoded one, else the decoded form escaped.
\<close>

definition EscapedPath :: "url \<Rightarrow> string" where
  "EscapedPath u =
     (if RawPath u \<noteq> [] \<and> validEncoded (RawPath u) encodePath \<and>
         unescape (RawPath u) encodePath = Some (Path u)
      then RawPath u
      else if Path u = ''*'' then ''*''
      else escape (Path u) encodePath)"

definition EscapedFragment :: "url \<Rightarrow> string" where
  "EscapedFragment u =
     (if RawFragment u \<noteq> [] \<and> validEncoded (RawFragment u) encodeFragment \<and>
         unescape (RawFragment u) encodeFragment = Some (Fragment u)
      then RawFragment u
      else escape (Fragment u) encodeFragment)"

text \<open>
  The method \<open>(*URL).String\<close>: scheme, then the opaque part, or else \<open>//\<close>, user
  information, the escaped host and the escaped path (after \<open>/\<close> when a host is followed
  by a relative path, after \<open>./\<close> when nothing is written yet and the first segment has a
  colon); then \<open>?\<close> and the raw query; then \<open>#\<close> and the escaped fragment.
\<close>

definition URL_String :: "url \<Rightarrow> string" where
  "URL_String u =
     (let b1 = (if Scheme u \<noteq> [] then Scheme u @ '':'' else []);
          b2 = (if Opaque u \<noteq> [] then b1 @ Opaque u
                else
                  (let b3 = (if Scheme u \<noteq> [] \<or> Host u \<noteq> [] \<or> User u \<noteq> None
                             then (if OmitHost u \<and> Host u = [] \<and> User u = None then b1
                                   else b1
                                        @ (if Host u \<noteq> [] \<or> Path u \<noteq> [] \<or> User u \<noteq> None
                                           then ''//'' else [])
                                        @ (case User u of
                                             None \<Rightarrow> []
                                           | Some ui \<Rightarrow> Userinfo_String ui @ ''@'')
                                        @ escape (Host u) encodeHost)
                             else b1);
                       path = EscapedPath u;
                       b4 = (if path \<noteq> [] \<and> hd path \<noteq> CHR ''/'' \<and> Host u \<noteq> []
                             then b3 @ ''/'' else b3);
                       b5 = (if b4 = [] \<and> CHR '':'' \<in> set (takeWhile (\<lambda>c. c \<noteq> CHR ''/'') path)
                             then b4 @ ''./'' else b4)
                   in b5 @ path));
          b6 = (if ForceQuery u \<or> RawQuery u \<noteq> [] then b2 @ ''?'' @ RawQuery u else b2)
      in if Fragment u \<noteq> [] then b6 @ ''#'' @ EscapedFragment u else b6)"

section \<open>URL normalizer (\<open>utils/utils.go\<close>)\<close>

text \<open>
  \<open>NormalizeParsedURL\<close> receives a pointer and assigns to two fields of the URL it points
  to; the model returns the key together with the URL as the call leaves it.
\<close>

definition NormalizeParsedURL :: "url \<Rightarrow> string \<times> url" where
  "NormalizeParsedURL u =
     (let u1 = u\<lparr>Fragment := []\<rparr>;
          u2 = u1\<lparr>RawQuery := []\<rparr>
      in (ToLower (URL_String u2), u2))"

section \<open>Tokenizer coordinator (\<open>tokenizer/coordinator.go\<close>)\<close>

datatype PathDecision = FastPath | SlowPath

text \<open>The routing counters are \<open>atomic.Uint64\<close>; the two size limits are Go \<open>int\<close>s.\<close>

record Coordinator =
  fastPathCount :: "64 word"
  slowPathCount :: "64 word"
  fastPathSizeLimit :: int
  slowPathSizeLimit :: int

definition NewCoordinator :: Coordinator where
  "NewCoordinator =
     \<lparr>fastPathCount = 0, slowPathCount = 0,
      fastPathSizeLimit = 100 * 1024, slowPathSizeLimit = 500 * 1024\<rparr>"

definition countSlow :: "Coordinator \<Rightarrow> PathDecision \<times> Coordinator" where
  "countSlow c = (SlowPath, c\<lparr>slowPathCount := slowPathCount c + 1\<rparr>)"

definition countFast :: "Coordinator \<Rightarrow> PathDecision \<times> Coordinator" where
  "countFast c = (FastPath, c\<lparr>fastPathCount := fastPathCount c + 1\<rparr>)"

text \<open>The keyword tests of rules S2 and F2, as \<open>Decide\<close> writes them.\<close>

definition documentKeywordIn :: "string \<Rightarrow> bool" where
  "documentKeywordIn urlLower =
     (Contains urlLower ''/document'' \<or>
      Contains urlLower ''/paper'' \<or>
      Contains urlLower ''/publication'' \<or>
      Contains urlLower ''/research'' \<or>
      Contains urlLower ''/library'')"

definition indexKeywordIn :: "string \<Rightarrow> bool" where
  "indexKeywordIn urlLower =
     (Contains urlLower ''/sitemap'' \<or>
      Contains urlLower ''/archive'' \<or>
      Contains urlLower ''/category'' \<or>
      Contains urlLower ''/tag'' \<or>
      Contains urlLower ''/index'' \<or>
      Contains urlLower ''/list'')"

definition Decide :: "Coordinator \<Rightarrow> url \<Rightarrow> int \<Rightarrow> PathDecision \<times> Coordinator" where
  "Decide c pageURL bodySize =
     (let urlStr = URL_String pageURL;
          urlLower = ToLower urlStr
      in if bodySize > slowPathSizeLimit c then countSlow c
         else if documentKeywordIn urlLower then countSlow c
         else if RawQuery pageURL \<noteq> [] then countSlow c
         else if bodySize < fastPathSizeLimit c then countFast c
         else if indexKeywordIn urlLower then countFast c
         else if length (Split (Path pageURL) CHR ''/'') \<le> 3 then countFast c
         else countSlow c)"

text \<open>The URL \<open>scheme://host/path\<close> with every other field of \<open>url.URL\<close> at its zero value.\<close>

definition plainURL :: "string \<Rightarrow> string \<Rightarrow> string \<Rightarrow> url" where
  "plainURL s h p =
     \<lparr>Scheme = s, Opaque = [], User = None, Host = h, Path = p, RawPath = [],
      OmitHost = False, ForceQuery = False, RawQuery = [], Fragment = [], RawFragment = []\<rparr>"

section \<open>Run-time panics\<close>

text \<open>
  Go checks every index and slice expression and panics when it is out of range. A
  computation that can panic returns an \<open>option\<close>: \<open>None\<close> is the panic, \<open>Some v\<close> the
  normal return of \<open>v\<close>. Indices are Go \<open>int\<close>s and may be negative.
\<close>

definition byteAt :: "string \<Rightarrow> int \<Rightarrow> char option" where
  "byteAt s i = (if 0 \<le> i \<and> i < int (length s) then Some (s ! nat i) else None)"

definition sliceFrom :: "string \<Rightarrow> int \<Rightarrow> string option" where
  "sliceFrom s lo = (if 0 \<le> lo \<and> lo \<le> int (length s) then Some (drop (nat lo) s) else None)"

definition slice :: "string \<Rightarrow> int \<Rightarrow> int \<Rightarrow> string option" where
  "slice s lo hi =
     (if 0 \<le> lo \<and> lo \<le> hi \<and> hi \<le> int (length s)
      then Some (take (nat hi - nat lo) (drop (nat lo) s)) else None)"

text \<open>\<open>a && b\<close>: the right operand is evaluated, and can panic, only when the left one holds.\<close>

definition andAlso :: "bool \<Rightarrow> bool option \<Rightarrow> bool option" where
  "andAlso a b = (if a then b else Some False)"

section \<open>Fast-path tokenizer (\<open>tokenizer/fastpath.go\<close>)\<close>

text \<open>\<open>b[i] == c1 || b[i] == c2\<close>\<close>

definition byteIn :: "string \<Rightarrow> int \<Rightarrow> char \<Rightarrow> char \<Rightarrow> bool option" where
  "byteIn b i c1 c2 = do { x \<leftarrow> byteAt b i; Some (x = c1 \<or> x = c2) }"

definition matchesHref :: "string \<Rightarrow> bool option" where
  "matchesHref b =
     (if length b < 5 then Some False
      else do {
        m0 \<leftarrow> byteIn b 0 CHR ''h'' CHR ''H'';
        m1 \<leftarrow> andAlso m0 (byteIn b 1 CHR ''r'' CHR ''R'');
        m2 \<leftarrow> andAlso m1 (byteIn b 2 CHR ''e'' CHR ''E'');
        m3 \<leftarrow> andAlso m2 (byteIn b 3 CHR ''f'' CHR ''F'');
        andAlso m3 (byteIn b 4 CHR ''='' CHR ''='')
      })"

text \<open>
  \<open>makeAbsolute\<close> takes the base as a pointer, which the crawler always sets to the URL of
  the fetched page; the model takes the URL it points to.
\<close>

definition makeAbsolute :: "string \<Rightarrow> url \<Rightarrow> string option" where
  "makeAbsolute rawURL base =
     do {
       isHttp \<leftarrow> andAlso (length rawURL > 7)
                  (do { p \<leftarrow> slice rawURL 0 7; Some (p = ''http://'' \<or> p = ''https:/'') });
       if isHttp then Some rawURL
       else do {
         isProtoRel \<leftarrow> andAlso (length rawURL > 2)
                         (do { p \<leftarrow> slice rawURL 0 2; Some (p = ''//'') });
         if isProtoRel then Some (Scheme base @ '':'' @ rawURL)
         else do {
           isRooted \<leftarrow> andAlso (length rawURL > 0)
                         (do { c \<leftarrow> byteAt rawURL 0; Some (c = CHR ''/'') });
           if isRooted then Some (Scheme base @ ''://'' @ Host base @ rawURL)
           else do {
             let baseStr = URL_String base;
             c \<leftarrow> byteAt baseStr (int (length baseStr) - 1);
             if c = CHR ''/'' then Some (baseStr @ rawURL)
             else Some (baseStr @ ''/'' @ rawURL)
           }
         }
       }
     }"

text \<open>
  After \<open>i += 5\<close>: the optional opening quote. \<open>quote\<close> stays at the zero byte when the value is
  unquoted.
\<close>

definition readQuote :: "string \<Rightarrow> int \<Rightarrow> (char \<times> int) option" where
  "readQuote htmlBytes i =
     (if i < int (length htmlBytes) then
        do { c \<leftarrow> byteAt htmlBytes i;
             if c = CHR ''\"'' \<or> c = CHR 0x27 then Some (c, i + 1) else Some (CHR 0x00, i) }
      else Some (CHR 0x00, i))"

text \<open>The inner loop: advance \<open>i\<close> to the terminator of the value, or to the end of the body.\<close>

function valueEnd :: "string \<Rightarrow> char \<Rightarrow> int \<Rightarrow> int option" where
  "valueEnd htmlBytes quote i =
     (if i < int (length htmlBytes) then
        do { c \<leftarrow> byteAt htmlBytes i;
             if quote \<noteq> CHR 0x00 then
               (if c = quote then Some i else valueEnd htmlBytes quote (i + 1))
             else
               (if c = CHR '' '' \<or> c = CHR ''>'' then Some i
                else valueEnd htmlBytes quote (i + 1)) }
      else Some i)"
  by pat_completeness auto
termination
  by (relation "measure (\<lambda>(htmlBytes, quote, i). nat (int (length htmlBytes) - i))") auto

declare valueEnd.simps [simp del]

text \<open>The filter on the raw value: not empty, not an anchor, not \<open>javascript:\<close> or \<open>mailto:\<close>.\<close>

definition keepRaw :: "string \<Rightarrow> bool option" where
  "keepRaw rawURL =
     do { notAnchor \<leftarrow> andAlso (length rawURL > 0)
                        (do { c \<leftarrow> byteAt rawURL 0; Some (c \<noteq> CHR ''#'') });
          Some (notAnchor \<and> \<not> HasPrefix rawURL ''javascript:'' \<and> \<not> HasPrefix rawURL ''mailto:'') }"

text \<open>
  The body of the \<open>if matchesHref\<close> block, from the quote to the append; it returns the
  index reached and the updated \<open>urls\<close> and \<open>linkCount\<close>.
\<close>

definition hrefBody ::
  "string \<Rightarrow> url \<Rightarrow> int \<Rightarrow> string list \<Rightarrow> int \<Rightarrow> (int \<times> string list \<times> int) option" where
  "hrefBody htmlBytes baseURL i0 urls linkCount =
     do { (quote, urlStart) \<leftarrow> readQuote htmlBytes i0;
          i \<leftarrow> valueEnd htmlBytes quote urlStart;
          if i > urlStart then
            do { rawURL \<leftarrow> slice htmlBytes urlStart i;
                 keep \<leftarrow> keepRaw rawURL;
                 if keep then
                   do { absURL \<leftarrow> makeAbsolute rawURL baseURL;
                        if absURL \<noteq> [] then Some (i, urls @ [absURL], linkCount + 1)
                        else Some (i, urls, linkCount) }
                 else Some (i, urls, linkCount) }
          else Some (i, urls, linkCount) }"

lemma valueEnd_ge: "valueEnd b q i = Some j \<Longrightarrow> i \<le> j"
proof (induction b q i rule: valueEnd.induct)
  case (1 b q i)
  show ?case
  proof (cases "i < int (length b)")
    case False
    with "1.prems" show ?thesis by (subst (asm) valueEnd.simps) simp
  next
    case True
    from "1.prems" True obtain c where c: "byteAt b i = Some c"
      by (subst (asm) valueEnd.simps) (auto split: bind_splits)
    show ?thesis
    proof (cases "q \<noteq> CHR 0x00")
      case q: True
      show ?thesis
      proof (cases "c = q")
        case True
        with "1.prems" \<open>i < int (length b)\<close> c q show ?thesis
          by (subst (asm) valueEnd.simps) simp
      next
        case False
        with "1.prems" \<open>i < int (length b)\<close> c q have "valueEnd b q (i + 1) = Some j"
          by (subst (asm) valueEnd.simps) simp
        with "1.IH"(1)[OF \<open>i < int (length b)\<close> c q False] show ?thesis by simp
      qed
    next
      case q: False
      show ?thesis
      proof (cases "c = CHR '' '' \<or> c = CHR ''>''")
        case True
        with "1.prems" \<open>i < int (length b)\<close> c q show ?thesis
          by (subst (asm) valueEnd.simps) auto
      next
        case False
        with "1.prems" \<open>i < int (length b)\<close> c q have "valueEnd b q (i + 1) = Some j"
          by (subst (asm) valueEnd.simps) simp
        with "1.IH"(2)[OF \<open>i < int (length b)\<close> c q False] show ?thesis by simp
      qed
    qed
  qed
qed

lemma hrefBody_ge: "hrefBody b base i0 urls lc = Some (i, urls', lc') \<Longrightarrow> i0 \<le> i"
proof -
  assume h: "hrefBody b base i0 urls lc = Some (i, urls', lc')"
  then obtain quote urlStart where rq: "readQuote b i0 = Some (quote, urlStart)"
    by (auto simp: hrefBody_def split: bind_splits)
  from h rq obtain j where ve: "valueEnd b quote urlStart = Some j"
    by (auto simp: hrefBody_def split: bind_splits)
  from h rq ve have "i = j"
    by (auto simp: hrefBody_def split: bind_splits if_splits)
  moreover from rq have "i0 \<le> urlStart"
    by (auto simp: readQuote_def split: if_splits bind_splits)
  moreover from ve have "urlStart \<le> j" by (rule valueEnd_ge)
  ultimately show ?thesis by simp
qed


text \<open>The outer loop \<open>for i < len(htmlBytes)-6\<close>; the subtraction is signed.\<close>

function scanLoop ::
  "string \<Rightarrow> url \<Rightarrow> int \<Rightarrow> string list \<Rightarrow> int \<Rightarrow> (string list \<times> int) option" where
  "scanLoop htmlBytes baseURL i urls linkCount =
     (if i < int (length htmlBytes) - 6 then
        do { rest \<leftarrow> sliceFrom htmlBytes i;
             m \<leftarrow> matchesHref rest;
             if m then
               do { (i', urls', linkCount') \<leftarrow> hrefBody htmlBytes baseURL (i + 5) urls linkCount;
                    scanLoop htmlBytes baseURL (i' + 1) urls' linkCount' }
             else scanLoop htmlBytes baseURL (i + 1) urls linkCount }
      else Some (urls, linkCount))"
  by pat_completeness auto
termination
proof (relation "measure (\<lambda>(htmlBytes, baseURL, i, urls, linkCount). nat (int (length htmlBytes) - i))")
  show "wf (measure (\<lambda>(htmlBytes, baseURL, i, urls, linkCount). nat (int (length htmlBytes) - i)))"
    by simp
next
  fix htmlBytes :: string and baseURL :: url and i :: int and urls :: "string list"
    and linkCount :: int and rest m x2 i' y urls' linkCount'
  assume "i < int (length htmlBytes) - 6"
    and "hrefBody htmlBytes baseURL (i + 5) urls linkCount = Some x2"
    and "(i', y) = x2" and "(urls', linkCount') = y"
  then have "i + 5 \<le> i'" using hrefBody_ge[of htmlBytes baseURL "i + 5" urls linkCount i' urls' linkCount']
    by simp
  with \<open>i < int (length htmlBytes) - 6\<close>
  show "((htmlBytes, baseURL, i' + 1, urls', linkCount'), (htmlBytes, baseURL, i, urls, linkCount))
        \<in> measure (\<lambda>(htmlBytes, baseURL, i, urls, linkCount). nat (int (length htmlBytes) - i))"
    by simp
next
  fix htmlBytes :: string and baseURL :: url and i :: int and urls :: "string list"
    and linkCount :: int
  assume "i < int (length htmlBytes) - 6"
  then show "((htmlBytes, baseURL, i + 1, urls, linkCount), (htmlBytes, baseURL, i, urls, linkCount))
        \<in> measure (\<lambda>(htmlBytes, baseURL, i, urls, linkCount). nat (int (length htmlBytes) - i))"
    by simp
qed

declare scanLoop.simps [simp del]

record FastPathTokenizer =
  pagesProcessed :: "64 word"
  totalLatencyUs :: "64 word"
  linksExtracted :: "64 word"

record FastPathResult =
  URLs :: "string list"
  ProcessingUs :: "64 word"
  LinkCount :: int

text \<open>
  \<open>ExtractLinks\<close>; the elapsed time measured by the clock is the parameter \<open>elapsedUs\<close>. The
  result comes with the tokenizer as the call leaves its counters.
\<close>

definition ExtractLinks ::
  "FastPathTokenizer \<Rightarrow> 64 word \<Rightarrow> string \<Rightarrow> url \<Rightarrow> (FastPathResult \<times> FastPathTokenizer) option" where
  "ExtractLinks f elapsedUs htmlBytes baseURL =
     do { (urls, linkCount) \<leftarrow> scanLoop htmlBytes baseURL 0 [] 0;
          Some (\<lparr>URLs = urls, ProcessingUs = elapsedUs, LinkCount = linkCount\<rparr>,
                f\<lparr>pagesProcessed := pagesProcessed f + 1,
                  totalLatencyUs := totalLatencyUs f + elapsedUs,
                  linksExtracted := linksExtracted f + word_of_int linkCount\<rparr>) }"

definition NewFastPathTokenizer :: FastPathTokenizer where
  "NewFastPathTokenizer = \<lparr>pagesProcessed = 0, totalLatencyUs = 0, linksExtracted = 0\<rparr>"

section \<open>Slow-path tokenizer (\<open>tokenizer/slowpath.go\<close>)\<close>

record SlowPathTokenizer =
  pagesProcessed :: "64 word"
  totalLatencyUs :: "64 word"
  linksExtracted :: "64 word"
  docsDetected :: "64 word"

record DocumentInfo =
  URL :: string
  Extension :: string
  Title :: string
  Context :: string

text \<open>
  \<open>PageMetadata\<close> without \<open>LinkDensity\<close>, a \<open>float64\<close> that no property below reads.
  \<open>AnalyzeDocument\<close> never assigns \<open>Depth\<close>.
\<close>

record PageMetadata =
  Title :: string
  Description :: string
  HasNav :: bool
  Depth :: int

record SlowPathResult =
  URLs :: "string list"
  Documents :: "DocumentInfo list"
  ProcessingUs :: "64 word"
  LinkCount :: int
  DocCount :: int
  PageMetadata :: PageMetadata

text \<open>
  The DOM is built by the goquery library. What \<open>AnalyzeDocument\<close> reads from it is
  represented directly: the three metadata queries and, in document order, the elements
  selected by \<open>a[href]\<close>, each with the result of \<open>Attr("href")\<close> (\<open>None\<close> when the attribute
  does not exist), its text and the text of its parent (\<open>None\<close> when it has no parent).
\<close>

record anchor =
  href :: "string option"
  anchorText :: string
  parentText :: "string option"

record document =
  titleText :: string
  metaDescription :: string
  navCount :: nat
  anchors :: "anchor list"

fun isDocumentLoop :: "string \<Rightarrow> string list \<Rightarrow> bool" where
  "isDocumentLoop urlLower [] = False"
| "isDocumentLoop urlLower (ext # extensions) =
     (if HasSuffix urlLower ext then True else isDocumentLoop urlLower extensions)"

definition isDocument :: "string \<Rightarrow> string list \<Rightarrow> bool" where
  "isDocument urlStr extensions = isDocumentLoop (ToLower urlStr) extensions"

definition getExtension :: "string \<Rightarrow> string" where
  "getExtension urlStr =
     (let parts = Split urlStr CHR ''.''
      in if length parts > 1 then
           (let ext = last parts;
                idx = IndexByte ext CHR ''?'';
                ext = (if idx \<noteq> -1 then take (nat idx) ext else ext)
            in ''.'' @ ext)
         else [])"

definition getContext :: "anchor \<Rightarrow> string" where
  "getContext sel =
     (case parentText sel of
        Some text \<Rightarrow> TrimSpace (if length text > 200 then take 200 text @ ''...'' else text)
      | None \<Rightarrow> [])"

text \<open>
  The callback passed to \<open>Each\<close>. \<open>resolve\<close> stands for \<open>baseURL.Parse(href)\<close> of the standard
  library, \<open>None\<close> being its error.
\<close>

definition processAnchor ::
  "(url \<Rightarrow> string \<Rightarrow> url option) \<Rightarrow> url \<Rightarrow> string list \<Rightarrow> SlowPathResult \<Rightarrow> anchor \<Rightarrow> SlowPathResult" where
  "processAnchor resolve baseURL docExtensions result sel =
     (case href sel of
        None \<Rightarrow> result
      | Some h \<Rightarrow>
          if h = [] \<or> h = ''#'' then result
          else if HasPrefix h ''javascript:'' \<or> HasPrefix h ''mailto:'' then result
          else (case resolve baseURL h of
                  None \<Rightarrow> result
                | Some absURL \<Rightarrow>
                    (let urlStr = URL_String absURL;
                         result1 = result\<lparr>URLs := URLs result @ [urlStr],
                                           LinkCount := LinkCount result + 1\<rparr>
                     in if isDocument urlStr docExtensions then
                          result1\<lparr>Documents := Documents result1 @
                                     [\<lparr>URL = urlStr, Extension = getExtension urlStr,
                                       Title = anchorText sel, Context = getContext sel\<rparr>],
                                   DocCount := DocCount result1 + 1\<rparr>
                        else result1)))"

text \<open>
  \<open>AnalyzeDocument\<close>; \<open>parseHTML\<close> stands for goquery's parser and selections (\<open>None\<close> is its
  error), \<open>elapsedUs\<close> for the measured time.
\<close>

definition AnalyzeDocument ::
  "SlowPathTokenizer \<Rightarrow> 64 word \<Rightarrow> (string \<Rightarrow> document option) \<Rightarrow> (url \<Rightarrow> string \<Rightarrow> url option) \<Rightarrow>
   string \<Rightarrow> url \<Rightarrow> string list \<Rightarrow> SlowPathResult \<times> SlowPathTokenizer" where
  "AnalyzeDocument s elapsedUs parseHTML resolve htmlBytes baseURL docExtensions =
     (let result = \<lparr>URLs = [], Documents = [], ProcessingUs = 0, LinkCount = 0, DocCount = 0,
                     PageMetadata = \<lparr>Title = [], Description = [], HasNav = False, Depth = 0\<rparr>\<rparr>
      in case parseHTML htmlBytes of
           None \<Rightarrow>
             (result\<lparr>ProcessingUs := elapsedUs\<rparr>,
              s\<lparr>pagesProcessed := pagesProcessed s + 1,
                totalLatencyUs := totalLatencyUs s + elapsedUs\<rparr>)
         | Some doc \<Rightarrow>
             (let result = result\<lparr>PageMetadata :=
                                    \<lparr>Title = titleText doc, Description = metaDescription doc,
                                     HasNav = (navCount doc > 0), Depth = 0\<rparr>\<rparr>;
                  result = foldl (processAnchor resolve baseURL docExtensions) result (anchors doc);
                  result = result\<lparr>ProcessingUs := elapsedUs\<rparr>
              in (result,
                  s\<lparr>pagesProcessed := pagesProcessed s + 1,
                    totalLatencyUs := totalLatencyUs s + elapsedUs,
                    linksExtracted := linksExtracted s + word_of_int (LinkCount result),
                    docsDetected := docsDetected s + word_of_int (DocCount result)\<rparr>)))"

definition NewSlowPathTokenizer :: SlowPathTokenizer where
  "NewSlowPathTokenizer =
     \<lparr>pagesProcessed = 0, totalLatencyUs = 0, linksExtracted = 0, docsDetected = 0\<rparr>"

section \<open>Document classifier and file names (\<open>utils/utils.go\<close>)\<close>

fun IsDocumentURLLoop :: "string \<Rightarrow> string list \<Rightarrow> bool" where
  "IsDocumentURLLoop lowerURL [] = False"
| "IsDocumentURLLoop lowerURL (ext # extensions) =
     (if HasSuffix lowerURL ext \<or> Contains lowerURL (ext @ ''?'') \<or> Contains lowerURL (ext @ ''&'')
      then True else IsDocumentURLLoop lowerURL extensions)"

definition IsDocumentURL :: "string \<Rightarrow> string list \<Rightarrow> bool" where
  "IsDocumentURL docURL extensions = IsDocumentURLLoop (ToLower docURL) extensions"








section \<open>Crawl orchestrator (\<open>crawler\<close>, two-tier)\<close>

definition MaxDepth :: int where
  "MaxDepth = 13"

text \<open>
  The part of \<open>CrawlerTwoTier\<close> that \<open>processDiscoveredURL\<close> works on: the visited map and the
  collector, represented by the requests submitted to it, in order: method, URL and the
  value stored under \<open>depth\<close> in the request context. The visited log file is left out.
\<close>

record CrawlerTwoTier =
  visitedURLsMap :: "string \<Rightarrow> bool option"
  requests :: "(string \<times> string \<times> string) list"

definition hasVisited :: "CrawlerTwoTier \<Rightarrow> string \<Rightarrow> bool" where
  "hasVisited c u = (case visitedURLsMap c u of None \<Rightarrow> False | Some v \<Rightarrow> True)"

definition saveVisitedURL :: "CrawlerTwoTier \<Rightarrow> string \<Rightarrow> CrawlerTwoTier" where
  "saveVisitedURL c u = c\<lparr>visitedURLsMap := (visitedURLsMap c)(u \<mapsto> True)\<rparr>"

text \<open>\<open>urlParse\<close> stands for \<open>url.Parse\<close> of the standard library, \<open>None\<close> being its error.\<close>

definition processDiscoveredURL ::
  "(string \<Rightarrow> url option) \<Rightarrow> CrawlerTwoTier \<Rightarrow> string \<Rightarrow> int \<Rightarrow> CrawlerTwoTier" where
  "processDiscoveredURL urlParse c urlStr currentDepth =
     (case urlParse urlStr of
        None \<Rightarrow> c
      | Some parsed \<Rightarrow>
          if Host parsed = [] then c
          else
            (let cleanURL = fst (NormalizeParsedURL parsed)
             in if currentDepth < MaxDepth then
                  (if \<not> hasVisited c cleanURL then
                     (let c1 = saveVisitedURL c cleanURL
                      in c1\<lparr>requests := requests c1 @ [(''GET'', urlStr, decimal (currentDepth + 1))]\<rparr>)
                   else c)
                else c))"

text \<open>The loop of the response handler over the URLs a tokenizer extracted from one page.\<close>

definition processDiscoveredURLs ::
  "(string \<Rightarrow> url option) \<Rightarrow> CrawlerTwoTier \<Rightarrow> string list \<Rightarrow> int \<Rightarrow> CrawlerTwoTier" where
  "processDiscoveredURLs urlParse c urls currentDepth =
     foldl (\<lambda>c urlStr. processDiscoveredURL urlParse c urlStr currentDepth) c urls"

section \<open>Parsing URLs (Go's \<open>net/url\<close>)\<close>

text \<open>
  The function \<open>url.Parse\<close>, which the crawler calls before it normalizes: it cuts off the
  fragment, rejects control characters, reads the scheme and the query, and then either
  keeps the rest as an opaque part or reads the authority and the path. \<open>None\<close> is an
  error of \<open>url.Parse\<close>.
\<close>



















section \<open>URLs written without escapes\<close>


















section \<open>File names as the specification describes them\<close>





section \<open>Routing: the size rule S1\<close>

text \<open>
  C3 (as amended). A body strictly larger than \<open>slowPathSizeLimit\<close> is routed to the slow
  path, whatever the URL and whatever fast-path rule would match. The comparison in
  \<open>Decide\<close> is strict, as the comment on the field says (pages over the limit go slow).
\<close>

theorem Decide_above_slow_limit:
  "bodySize > slowPathSizeLimit c \<Longrightarrow> fst (Decide c pageURL bodySize) = SlowPath"
  by (simp add: Decide_def countSlow_def)

theorem Decide_above_slow_limit_witness:
  "600 * 1024 > slowPathSizeLimit NewCoordinator \<and>
   fst (Decide NewCoordinator (plainURL ''https'' ''a.b'' ''/sitemap.xml'') (600 * 1024)) = SlowPath"
  using Decide_above_slow_limit
          [of NewCoordinator "600 * 1024" "plainURL ''https'' ''a.b'' ''/sitemap.xml''"]
  by (simp add: NewCoordinator_def)

text \<open>
  C3 as stated fails at equality: a body of exactly 500 KB at \<open>https://a.b/a\<close> passes rules
  S1 to F2 and is routed fast by the shallow-path rule F3.
\<close>

theorem Decide_at_slow_limit_fast:
  "500 * 1024 \<ge> slowPathSizeLimit NewCoordinator \<and>
   fst (Decide NewCoordinator (plainURL ''https'' ''a.b'' ''/a'') (500 * 1024)) = FastPath"
  by code_simp

section \<open>Routing: the keyword rules S2 and F2\<close>

text \<open>
  C4 (as amended). The keyword tests of S2 and F2 run on the lowercased serialized URL
  (\<open>pageURL.String()\<close>: scheme, host, path, query and fragment), not on the path alone.
  A document keyword anywhere in that string routes slow; when S1, S2, S3 and F1 do not
  apply, an index keyword anywhere in that string routes fast.
\<close>

theorem Decide_keywords_on_serialized_url:
  "(documentKeywordIn (ToLower (URL_String u)) \<longrightarrow> fst (Decide c u n) = SlowPath) \<and>
   (\<not> n > slowPathSizeLimit c \<and> \<not> documentKeywordIn (ToLower (URL_String u)) \<and>
    RawQuery u = [] \<and> \<not> n < fastPathSizeLimit c \<and>
    indexKeywordIn (ToLower (URL_String u)) \<longrightarrow> fst (Decide c u n) = FastPath)"
  by (simp add: Decide_def Let_def countSlow_def countFast_def)

theorem Decide_keywords_on_serialized_url_witness:
  "documentKeywordIn (ToLower (URL_String (plainURL ''https'' ''a.b'' ''/Research/notes''))) \<and>
   fst (Decide NewCoordinator (plainURL ''https'' ''a.b'' ''/Research/notes'') (50 * 1024)) = SlowPath \<and>
   \<not> 200 * 1024 > slowPathSizeLimit NewCoordinator \<and>
   \<not> documentKeywordIn (ToLower (URL_String (plainURL ''https'' ''a.b'' ''/a/b/c/Archive/e''))) \<and>
   RawQuery (plainURL ''https'' ''a.b'' ''/a/b/c/Archive/e'') = [] \<and>
   \<not> 200 * 1024 < fastPathSizeLimit NewCoordinator \<and>
   indexKeywordIn (ToLower (URL_String (plainURL ''https'' ''a.b'' ''/a/b/c/Archive/e''))) \<and>
   fst (Decide NewCoordinator (plainURL ''https'' ''a.b'' ''/a/b/c/Archive/e'') (200 * 1024)) = FastPath"
proof -
  have doc: "documentKeywordIn (ToLower (URL_String (plainURL ''https'' ''a.b'' ''/Research/notes'')))"
    by code_simp
  have nodoc: "\<not> documentKeywordIn (ToLower (URL_String (plainURL ''https'' ''a.b'' ''/a/b/c/Archive/e'')))"
    by code_simp
  have idx: "indexKeywordIn (ToLower (URL_String (plainURL ''https'' ''a.b'' ''/a/b/c/Archive/e'')))"
    by code_simp
  have size: "\<not> 200 * 1024 > slowPathSizeLimit NewCoordinator"
             "\<not> 200 * 1024 < fastPathSizeLimit NewCoordinator"
    by (simp_all add: NewCoordinator_def)
  have query: "RawQuery (plainURL ''https'' ''a.b'' ''/a/b/c/Archive/e'') = []"
    by (simp add: plainURL_def)
  have slow: "fst (Decide NewCoordinator (plainURL ''https'' ''a.b'' ''/Research/notes'') (50 * 1024))
                = SlowPath"
    using Decide_keywords_on_serialized_url
            [of "plainURL ''https'' ''a.b'' ''/Research/notes''" NewCoordinator "50 * 1024"] doc
    by blast
  have fast: "fst (Decide NewCoordinator (plainURL ''https'' ''a.b'' ''/a/b/c/Archive/e'') (200 * 1024))
                = FastPath"
    using Decide_keywords_on_serialized_url
            [of "plainURL ''https'' ''a.b'' ''/a/b/c/Archive/e''" NewCoordinator "200 * 1024"]
          nodoc idx size query
    by blast
  show ?thesis
    using doc nodoc idx size query slow fast by blast
qed

text \<open>
  C4 as stated fails: a keyword in the host decides the route. The two URLs below have the
  same path \<open>/a/b/c/d\<close>, which holds no keyword, no query and the same 200 KB body; the host
  \<open>tags.example.com\<close> makes the serialized URL contain \<open>/tag\<close> and the page goes fast, the
  host \<open>example.com\<close> leaves it to the default rule and the page goes slow.
\<close>

theorem Decide_keyword_in_host:
  "Path (plainURL ''https'' ''tags.example.com'' ''/a/b/c/d'') =
     Path (plainURL ''https'' ''example.com'' ''/a/b/c/d'') \<and>
   \<not> indexKeywordIn (ToLower (Path (plainURL ''https'' ''tags.example.com'' ''/a/b/c/d''))) \<and>
   fst (Decide NewCoordinator (plainURL ''https'' ''tags.example.com'' ''/a/b/c/d'') (200 * 1024))
     = FastPath \<and>
   fst (Decide NewCoordinator (plainURL ''https'' ''example.com'' ''/a/b/c/d'') (200 * 1024))
     = SlowPath"
  by code_simp

section \<open>Normalization writes to its argument\<close>



section \<open>Fast path: no panic\<close>

lemma byteAt_Some: "0 \<le> i \<Longrightarrow> i < int (length s) \<Longrightarrow> byteAt s i = Some (s ! nat i)"
  by (simp add: byteAt_def)

lemma byteIn_total:
  "0 \<le> i \<Longrightarrow> i < int (length b) \<Longrightarrow> \<exists>r. byteIn b i c1 c2 = Some r"
  by (simp add: byteIn_def byteAt_def)

lemma andAlso_total: "(a \<Longrightarrow> \<exists>r. x = Some r) \<Longrightarrow> \<exists>r. andAlso a x = Some r"
  by (auto simp: andAlso_def)

lemma matchesHref_total: "\<exists>r. matchesHref b = Some r"
proof (cases "length b < 5")
  case True
  then show ?thesis by (auto simp: matchesHref_def)
next
  case False
  then have len: "4 < int (length b)" by simp
  obtain m0 where m0: "byteIn b 0 CHR ''h'' CHR ''H'' = Some m0"
    using byteIn_total[of 0 b] len by fastforce
  obtain m1 where m1: "andAlso m0 (byteIn b 1 CHR ''r'' CHR ''R'') = Some m1"
    using andAlso_total[OF byteIn_total[of 1 b]] len by fastforce
  obtain m2 where m2: "andAlso m1 (byteIn b 2 CHR ''e'' CHR ''E'') = Some m2"
    using andAlso_total[OF byteIn_total[of 2 b]] len by fastforce
  obtain m3 where m3: "andAlso m2 (byteIn b 3 CHR ''f'' CHR ''F'') = Some m3"
    using andAlso_total[OF byteIn_total[of 3 b]] len by fastforce
  obtain m4 where m4: "andAlso m3 (byteIn b 4 CHR ''='' CHR ''='') = Some m4"
    using andAlso_total[OF byteIn_total[of 4 b]] len by fastforce
  from False m0 m1 m2 m3 m4 show ?thesis by (simp add: matchesHref_def)
qed

lemma keepRaw_total: "\<exists>r. keepRaw rawURL = Some r"
proof -
  obtain n where "andAlso (length rawURL > 0)
                    (do { c \<leftarrow> byteAt rawURL 0; Some (c \<noteq> CHR ''#'') }) = Some n"
    using andAlso_total[of "length rawURL > 0"
                           "do { c \<leftarrow> byteAt rawURL 0; Some (c \<noteq> CHR ''#'') }"]
    by (auto simp: byteAt_def)
  then show ?thesis by (simp add: keepRaw_def)
qed

lemma makeAbsolute_total:
  assumes "URL_String base \<noteq> []"
  shows "\<exists>r. makeAbsolute rawURL base = Some r"
proof -
  obtain c1 where c1: "andAlso (length rawURL > 7)
        (do { p \<leftarrow> slice rawURL 0 7; Some (p = ''http://'' \<or> p = ''https:/'') }) = Some c1"
    using andAlso_total[of "length rawURL > 7"
        "do { p \<leftarrow> slice rawURL 0 7; Some (p = ''http://'' \<or> p = ''https:/'') }"]
    by (auto simp: slice_def)
  obtain c2 where c2: "andAlso (length rawURL > 2)
        (do { p \<leftarrow> slice rawURL 0 2; Some (p = ''//'') }) = Some c2"
    using andAlso_total[of "length rawURL > 2" "do { p \<leftarrow> slice rawURL 0 2; Some (p = ''//'') }"]
    by (auto simp: slice_def)
  obtain c3 where c3: "andAlso (length rawURL > 0)
        (do { c \<leftarrow> byteAt rawURL 0; Some (c = CHR ''/'') }) = Some c3"
    using andAlso_total[of "length rawURL > 0" "do { c \<leftarrow> byteAt rawURL 0; Some (c = CHR ''/'') }"]
    by (auto simp: byteAt_def)
  from assms obtain c where c: "byteAt (URL_String base) (int (length (URL_String base)) - 1) = Some c"
    by (simp add: byteAt_def)
  from c1 c2 c3 c show ?thesis by (simp add: makeAbsolute_def Let_def)
qed

lemma readQuote_total:
  "0 \<le> i \<Longrightarrow> \<exists>q j. readQuote b i = Some (q, j) \<and> i \<le> j \<and> (i \<le> int (length b) \<longrightarrow> j \<le> int (length b))"
  by (simp add: readQuote_def byteAt_def)

lemma valueEnd_total:
  "0 \<le> i \<Longrightarrow> \<exists>j. valueEnd b q i = Some j \<and> (i \<le> int (length b) \<longrightarrow> j \<le> int (length b))"
proof (induction b q i rule: valueEnd.induct)
  case (1 b q i)
  show ?case
  proof (cases "i < int (length b)")
    case False
    then show ?thesis by (subst valueEnd.simps) simp
  next
    case True
    with "1.prems" have c: "byteAt b i = Some (b ! nat i)" by (simp add: byteAt_def)
    from "1.prems" have nn: "0 \<le> i + 1" by simp
    show ?thesis
    proof (cases "q \<noteq> CHR 0x00")
      case q: True
      show ?thesis
      proof (cases "b ! nat i = q")
        case True
        with \<open>i < int (length b)\<close> c q show ?thesis
          by (subst valueEnd.simps) simp
      next
        case False
        from "1.IH"(1)[OF \<open>i < int (length b)\<close> c q False nn] \<open>i < int (length b)\<close> c q False
        show ?thesis
          by (subst valueEnd.simps) simp
      qed
    next
      case q: False
      show ?thesis
      proof (cases "b ! nat i = CHR '' '' \<or> b ! nat i = CHR ''>''")
        case True
        with \<open>i < int (length b)\<close> c q show ?thesis
          by (subst valueEnd.simps) auto
      next
        case False
        from "1.IH"(2)[OF \<open>i < int (length b)\<close> c q False nn] \<open>i < int (length b)\<close> c q False
        show ?thesis
          by (subst valueEnd.simps) simp
      qed
    qed
  qed
qed

lemma hrefBody_total:
  assumes "0 \<le> i0" and "i0 \<le> int (length b)" and "URL_String base \<noteq> []"
  shows "\<exists>r. hrefBody b base i0 urls lc = Some r"
proof -
  from readQuote_total[OF assms(1), of b] assms(2)
  obtain q j where rq: "readQuote b i0 = Some (q, j)" and j: "i0 \<le> j" "j \<le> int (length b)"
    by blast
  from j assms(1) have "0 \<le> j" by simp
  from valueEnd_total[OF this, of b q] j
  obtain k where ve: "valueEnd b q j = Some k" and k: "k \<le> int (length b)" by blast
  show ?thesis
  proof (cases "k > j")
    case False
    with rq ve show ?thesis by (simp add: hrefBody_def)
  next
    case True
    with \<open>0 \<le> j\<close> k have sl: "slice b j k = Some (take (nat k - nat j) (drop (nat j) b))"
      by (simp add: slice_def)
    obtain kp where kp: "keepRaw (take (nat k - nat j) (drop (nat j) b)) = Some kp"
      using keepRaw_total by blast
    obtain a where a: "makeAbsolute (take (nat k - nat j) (drop (nat j) b)) base = Some a"
      using makeAbsolute_total[OF assms(3)] by blast
    from rq ve True sl kp a show ?thesis by (simp add: hrefBody_def)
  qed
qed

lemma scanLoop_total:
  "0 \<le> i \<Longrightarrow> URL_String base \<noteq> [] \<Longrightarrow> \<exists>r. scanLoop b base i urls lc = Some r"
proof (induction b base i urls lc rule: scanLoop.induct)
  case (1 b base i urls lc)
  show ?case
  proof (cases "i < int (length b) - 6")
    case False
    then show ?thesis by (subst scanLoop.simps) simp
  next
    case True
    with "1.prems" have sf: "sliceFrom b i = Some (drop (nat i) b)"
      by (simp add: sliceFrom_def)
    obtain m where m: "matchesHref (drop (nat i) b) = Some m"
      using matchesHref_total by blast
    show ?thesis
    proof (cases m)
      case mt: True
      from "1.prems" True have "0 \<le> i + 5" "i + 5 \<le> int (length b)" by simp_all
      from hrefBody_total[OF this "1.prems"(2), of urls lc]
      obtain i' u' l' where hb: "hrefBody b base (i + 5) urls lc = Some (i', u', l')"
        by (metis prod_cases3)
      from hrefBody_ge[OF hb] "1.prems" have "0 \<le> i' + 1" by simp
      from "1.IH"(1)[OF True sf m mt hb refl refl this "1.prems"(2)]
      obtain r where "scanLoop b base (i' + 1) u' l' = Some r" by blast
      with True sf m mt hb show ?thesis by (subst scanLoop.simps) simp
    next
      case mf: False
      from "1.prems" have "0 \<le> i + 1" by simp
      from "1.IH"(2)[OF True sf m mf this "1.prems"(2)]
      obtain r where "scanLoop b base (i + 1) urls lc = Some r" by blast
      with True sf m mf show ?thesis by (subst scanLoop.simps) simp
    qed
  qed
qed

text \<open>
  C6 (as amended). For every body, truncated or empty, and every base URL whose
  serialization is not empty (as that of every absolute URL), \<open>ExtractLinks\<close> returns
  normally: no index or slice expression of the scan, of \<open>matchesHref\<close> or of \<open>makeAbsolute\<close>
  is out of range.
\<close>

theorem ExtractLinks_returns:
  "URL_String baseURL \<noteq> [] \<Longrightarrow> \<exists>r. ExtractLinks f elapsedUs htmlBytes baseURL = Some r"
proof -
  assume "URL_String baseURL \<noteq> []"
  from scanLoop_total[OF _ this, of 0 htmlBytes "[]" 0]
  obtain urls linkCount where "scanLoop htmlBytes baseURL 0 [] 0 = Some (urls, linkCount)"
    by fastforce
  then show ?thesis by (simp add: ExtractLinks_def)
qed

theorem ExtractLinks_returns_witness:
  "URL_String (plainURL ''https'' ''a.b'' ''/'') \<noteq> [] \<and>
   (\<exists>r. ExtractLinks NewFastPathTokenizer 7 ''<p><a href=\"x'' (plainURL ''https'' ''a.b'' ''/'')
          = Some r)"
proof -
  have h: "URL_String (plainURL ''https'' ''a.b'' ''/'') \<noteq> []"
    by code_simp
  from h ExtractLinks_returns[OF h, of NewFastPathTokenizer 7 "''<p><a href=\"x''"]
  show ?thesis by blast
qed

text \<open>
  C6 as stated fails for the base URL whose fields are all empty: its serialization is the
  empty string, and for a relative link \<open>makeAbsolute\<close> reads \<open>baseStr[len(baseStr)-1]\<close>,
  index \<open>-1\<close>.
\<close>

theorem ExtractLinks_empty_base_panics:
  "URL_String (plainURL [] [] []) = [] \<and>
   ExtractLinks NewFastPathTokenizer 0 ''<a href=\"x\">link</a>'' (plainURL [] [] []) = None"
  by code_simp

section \<open>Fast path: the last six bytes\<close>

lemma scanLoop_no_match:
  "0 \<le> i \<Longrightarrow>
   (\<forall>k. i \<le> k \<and> k < int (length b) - 6 \<longrightarrow> matchesHref (drop (nat k) b) = Some False) \<Longrightarrow>
   scanLoop b base i urls lc = Some (urls, lc)"
proof (induction b base i urls lc rule: scanLoop.induct)
  case (1 b base i urls lc)
  show ?case
  proof (cases "i < int (length b) - 6")
    case False
    then show ?thesis by (subst scanLoop.simps) simp
  next
    case True
    with "1.prems" have sf: "sliceFrom b i = Some (drop (nat i) b)"
      by (simp add: sliceFrom_def)
    from "1.prems"(2) True have m: "matchesHref (drop (nat i) b) = Some False" by simp
    from "1.prems" have "0 \<le> i + 1"
      and "\<forall>k. i + 1 \<le> k \<and> k < int (length b) - 6 \<longrightarrow> matchesHref (drop (nat k) b) = Some False"
      by simp_all
    from "1.IH"(2)[OF True sf m _ this]
    have "scanLoop b base (i + 1) urls lc = Some (urls, lc)" by simp
    with True sf m show ?thesis by (subst scanLoop.simps) simp
  qed
qed

text \<open>
  C10. The scan loop tests for \<open>href=\<close> only at indices below \<open>len(body) - 6\<close>: once the
  index has reached that bound the loop ends and returns what it has. A body with no
  match below the bound yields no URL, whatever stands at the later indices: an
  occurrence that starts there is never scanned. So \<open><a href=x\<close>, whose occurrence starts at
  index 3 of 9, and the six bytes \<open>href=x\<close> both give the empty list.
\<close>

theorem ExtractLinks_tail_not_scanned:
  "(int (length htmlBytes) - 6 \<le> i \<longrightarrow>
      scanLoop htmlBytes baseURL i urls linkCount = Some (urls, linkCount)) \<and>
   ((\<forall>k. 0 \<le> k \<and> k < int (length htmlBytes) - 6 \<longrightarrow>
          matchesHref (drop (nat k) htmlBytes) = Some False) \<longrightarrow>
      map_option (FastPathResult.URLs \<circ> fst) (ExtractLinks f elapsedUs htmlBytes baseURL) = Some [])"
proof (intro conjI impI)
  assume "int (length htmlBytes) - 6 \<le> i"
  then show "scanLoop htmlBytes baseURL i urls linkCount = Some (urls, linkCount)"
    by (subst scanLoop.simps) simp
next
  assume "\<forall>k. 0 \<le> k \<and> k < int (length htmlBytes) - 6 \<longrightarrow>
            matchesHref (drop (nat k) htmlBytes) = Some False"
  then have "scanLoop htmlBytes baseURL 0 [] 0 = Some ([], 0)"
    by (intro scanLoop_no_match) simp_all
  then show "map_option (FastPathResult.URLs \<circ> fst) (ExtractLinks f elapsedUs htmlBytes baseURL)
             = Some []"
    by (simp add: ExtractLinks_def)
qed

theorem ExtractLinks_tail_not_scanned_witness:
  "matchesHref (drop 3 ''<a href=x'') = Some True \<and>
   scanLoop ''<a href=x'' (plainURL ''https'' ''a.b'' ''/'') 3 [] 0 = Some ([], 0) \<and>
   map_option (FastPathResult.URLs \<circ> fst)
     (ExtractLinks NewFastPathTokenizer 0 ''<a href=x'' (plainURL ''https'' ''a.b'' ''/'')) = Some [] \<and>
   matchesHref ''href=x'' = Some True \<and>
   map_option (FastPathResult.URLs \<circ> fst)
     (ExtractLinks NewFastPathTokenizer 0 ''href=x'' (plainURL ''https'' ''a.b'' ''/'')) = Some []"
proof -
  have h: "\<forall>k. 0 \<le> k \<and> k < int (length ''<a href=x'') - 6 \<longrightarrow>
             matchesHref (drop (nat k) ''<a href=x'') = Some False"
  proof (intro allI impI)
    fix k :: int
    assume "0 \<le> k \<and> k < int (length ''<a href=x'') - 6"
    then have "k = 0 \<or> k = 1 \<or> k = 2" by auto
    moreover have "matchesHref (drop (nat 0) ''<a href=x'') = Some False" by code_simp
    moreover have "matchesHref (drop (nat 1) ''<a href=x'') = Some False" by code_simp
    moreover have "matchesHref (drop (nat 2) ''<a href=x'') = Some False" by code_simp
    ultimately show "matchesHref (drop (nat k) ''<a href=x'') = Some False" by blast
  qed
  have h2: "\<forall>k. 0 \<le> k \<and> k < int (length ''href=x'') - 6 \<longrightarrow>
             matchesHref (drop (nat k) ''href=x'') = Some False"
    by auto
  have late: "int (length ''<a href=x'') - 6 \<le> 3" by simp
  have m1: "matchesHref (drop 3 ''<a href=x'') = Some True" by code_simp
  have m2: "matchesHref ''href=x'' = Some True" by code_simp
  note t1 = ExtractLinks_tail_not_scanned
              [of "''<a href=x''" 3 "plainURL ''https'' ''a.b'' ''/''" "[]" 0 NewFastPathTokenizer 0]
  note t2 = ExtractLinks_tail_not_scanned
              [of "''href=x''" 0 "plainURL ''https'' ''a.b'' ''/''" "[]" 0 NewFastPathTokenizer 0]
  from t1 late have s: "scanLoop ''<a href=x'' (plainURL ''https'' ''a.b'' ''/'') 3 [] 0 = Some ([], 0)"
    by blast
  from t1 h have e1: "map_option (FastPathResult.URLs \<circ> fst)
     (ExtractLinks NewFastPathTokenizer 0 ''<a href=x'' (plainURL ''https'' ''a.b'' ''/'')) = Some []"
    by blast
  from t2 h2 have e2: "map_option (FastPathResult.URLs \<circ> fst)
     (ExtractLinks NewFastPathTokenizer 0 ''href=x'' (plainURL ''https'' ''a.b'' ''/'')) = Some []"
    by blast
  from m1 s e1 m2 e2 show ?thesis by blast
qed

section \<open>Anchors, scripts and mail links\<close>

lemma fragment_not_script:
  assumes "h \<noteq> []" and "hd h = CHR ''#''"
  shows "\<not> HasPrefix h ''javascript:''" and "\<not> HasPrefix h ''mailto:''"
  using assms by (cases h; simp add: HasPrefix_def)+

text \<open>
  C5. The fast path drops every value that starts with \<open>#\<close>; the slow path drops only the
  value that is exactly \<open>#\<close>. On a page whose only anchor has an href that starts with \<open>#\<close>
  and is longer, the slow path returns the resolved URL. For \<open>href="#x"\<close> on
  \<open>https://a.b/p\<close> the reference resolves to the page itself with fragment \<open>x\<close>: the slow
  path lists \<open>https://a.b/p#x\<close>, where the fast path produces nothing.
\<close>

theorem slow_path_keeps_fragment_href:
  assumes "parseHTML htmlBytes = Some doc"
    and "anchors doc = [\<lparr>href = Some h, anchorText = t, parentText = p\<rparr>]"
    and "hd h = CHR ''#''" and "length h > 1"
    and "resolve baseURL h = Some u"
  shows "SlowPathResult.URLs
           (fst (AnalyzeDocument s elapsedUs parseHTML resolve htmlBytes baseURL docExtensions))
         = [URL_String u]"
proof -
  from assms(4) have ne: "h \<noteq> []" "h \<noteq> ''#''" by auto
  from fragment_not_script[OF ne(1) assms(3)]
  have ns: "\<not> HasPrefix h ''javascript:''" "\<not> HasPrefix h ''mailto:''" .
  show ?thesis
    using assms(1,2,5) ne ns
    by (simp add: AnalyzeDocument_def processAnchor_def Let_def)
qed

theorem slow_path_keeps_fragment_href_witness:
  "SlowPathResult.URLs
     (fst (AnalyzeDocument NewSlowPathTokenizer 0
             (\<lambda>body. Some \<lparr>titleText = [], metaDescription = [], navCount = 0,
                             anchors = [\<lparr>href = Some ''#x'', anchorText = ''t'',
                                         parentText = None\<rparr>]\<rparr>)
             (\<lambda>base ref. Some (base\<lparr>Fragment := ''x''\<rparr>))
             ''<a href=\"#x\">t</a>'' (plainURL ''https'' ''a.b'' ''/p'') [''.pdf'']))
     = [''https://a.b/p#x''] \<and>
   map_option (FastPathResult.URLs \<circ> fst)
     (ExtractLinks NewFastPathTokenizer 0 ''<a href=\"#x\">t</a>'' (plainURL ''https'' ''a.b'' ''/p''))
     = Some []"
proof -
  have u: "URL_String ((plainURL ''https'' ''a.b'' ''/p'')\<lparr>Fragment := ''x''\<rparr>) = ''https://a.b/p#x''"
    by code_simp
  have fast: "map_option (FastPathResult.URLs \<circ> fst)
     (ExtractLinks NewFastPathTokenizer 0 ''<a href=\"#x\">t</a>'' (plainURL ''https'' ''a.b'' ''/p''))
     = Some []"
    by code_simp
  from slow_path_keeps_fragment_href
         [of "\<lambda>body. Some \<lparr>titleText = [], metaDescription = [], navCount = 0,
                             anchors = [\<lparr>href = Some ''#x'', anchorText = ''t'',
                                         parentText = None\<rparr>]\<rparr>"
             "''<a href=\"#x\">t</a>''"
             "\<lparr>titleText = [], metaDescription = [], navCount = 0,
               anchors = [\<lparr>href = Some ''#x'', anchorText = ''t'', parentText = None\<rparr>]\<rparr>"
             "''#x''" "''t''" None
             "\<lambda>base ref. Some (base\<lparr>Fragment := ''x''\<rparr>)"
             "plainURL ''https'' ''a.b'' ''/p''"
             "(plainURL ''https'' ''a.b'' ''/p'')\<lparr>Fragment := ''x''\<rparr>"
             NewSlowPathTokenizer 0 "[''.pdf'']"]
  have "SlowPathResult.URLs
     (fst (AnalyzeDocument NewSlowPathTokenizer 0
             (\<lambda>body. Some \<lparr>titleText = [], metaDescription = [], navCount = 0,
                             anchors = [\<lparr>href = Some ''#x'', anchorText = ''t'',
                                         parentText = None\<rparr>]\<rparr>)
             (\<lambda>base ref. Some (base\<lparr>Fragment := ''x''\<rparr>))
             ''<a href=\"#x\">t</a>'' (plainURL ''https'' ''a.b'' ''/p'') [''.pdf'']))
     = [URL_String ((plainURL ''https'' ''a.b'' ''/p'')\<lparr>Fragment := ''x''\<rparr>)]"
    by simp
  with u fast show ?thesis by simp
qed

section \<open>Document records\<close>

lemma isDocumentLoop_iff:
  "isDocumentLoop urlLower extensions \<longleftrightarrow> (\<exists>ext \<in> set extensions. HasSuffix urlLower ext)"
  by (induction extensions) auto

text \<open>
  C1. The slow path classifies with its own \<open>isDocument\<close>, which tests the suffix only. On a
  page whose only anchor has an href that passes the filter and resolves, the URL is
  extracted, and a document record is made for it exactly when the lowercased URL ends
  with a listed extension. The query form is recognized by \<open>IsDocumentURL\<close> of the
  utilities, not here: the link \<open>/x.pdf?x=1\<close> on \<open>https://a.b/\<close> is extracted and gets no
  record.
\<close>

theorem slow_path_records_by_suffix:
  assumes "parseHTML htmlBytes = Some doc"
    and "anchors doc = [\<lparr>href = Some h, anchorText = t, parentText = p\<rparr>]"
    and "h \<noteq> []" and "h \<noteq> ''#''"
    and "\<not> HasPrefix h ''javascript:''" and "\<not> HasPrefix h ''mailto:''"
    and "resolve baseURL h = Some u"
  shows "SlowPathResult.URLs
           (fst (AnalyzeDocument s elapsedUs parseHTML resolve htmlBytes baseURL docExtensions))
         = [URL_String u] \<and>
         map URL (Documents
           (fst (AnalyzeDocument s elapsedUs parseHTML resolve htmlBytes baseURL docExtensions)))
         = (if \<exists>ext \<in> set docExtensions. HasSuffix (ToLower (URL_String u)) ext
            then [URL_String u] else [])"
  using assms
  by (simp add: AnalyzeDocument_def processAnchor_def Let_def isDocument_def isDocumentLoop_iff)

theorem slow_path_records_by_suffix_witness:
  "IsDocumentURL ''https://a.b/x.pdf?x=1'' [''.pdf''] \<and>
   \<not> isDocument ''https://a.b/x.pdf?x=1'' [''.pdf''] \<and>
   SlowPathResult.URLs
     (fst (AnalyzeDocument NewSlowPathTokenizer 0
             (\<lambda>body. Some \<lparr>titleText = [], metaDescription = [], navCount = 0,
                             anchors = [\<lparr>href = Some ''/x.pdf?x=1'', anchorText = ''t'',
                                         parentText = None\<rparr>]\<rparr>)
             (\<lambda>base ref. Some ((plainURL ''https'' ''a.b'' ''/x.pdf'')\<lparr>RawQuery := ''x=1''\<rparr>))
             ''<a href=\"/x.pdf?x=1\">t</a>'' (plainURL ''https'' ''a.b'' ''/'') [''.pdf'']))
     = [''https://a.b/x.pdf?x=1''] \<and>
   Documents
     (fst (AnalyzeDocument NewSlowPathTokenizer 0
             (\<lambda>body. Some \<lparr>titleText = [], metaDescription = [], navCount = 0,
                             anchors = [\<lparr>href = Some ''/x.pdf?x=1'', anchorText = ''t'',
                                         parentText = None\<rparr>]\<rparr>)
             (\<lambda>base ref. Some ((plainURL ''https'' ''a.b'' ''/x.pdf'')\<lparr>RawQuery := ''x=1''\<rparr>))
             ''<a href=\"/x.pdf?x=1\">t</a>'' (plainURL ''https'' ''a.b'' ''/'') [''.pdf'']))
     = []"
proof -
  let ?doc = "\<lparr>titleText = [], metaDescription = [], navCount = 0,
               anchors = [\<lparr>href = Some ''/x.pdf?x=1'', anchorText = ''t'', parentText = None\<rparr>]\<rparr>"
  let ?u = "(plainURL ''https'' ''a.b'' ''/x.pdf'')\<lparr>RawQuery := ''x=1''\<rparr>"
  let ?r = "fst (AnalyzeDocument NewSlowPathTokenizer 0 (\<lambda>body. Some ?doc) (\<lambda>base ref. Some ?u)
                  ''<a href=\"/x.pdf?x=1\">t</a>'' (plainURL ''https'' ''a.b'' ''/'') [''.pdf''])"
  have u: "URL_String ?u = ''https://a.b/x.pdf?x=1''" by code_simp
  have q: "IsDocumentURL ''https://a.b/x.pdf?x=1'' [''.pdf'']" by code_simp
  have n: "\<not> isDocument ''https://a.b/x.pdf?x=1'' [''.pdf'']" by code_simp
  have ns: "\<not> HasPrefix ''/x.pdf?x=1'' ''javascript:''" "\<not> HasPrefix ''/x.pdf?x=1'' ''mailto:''"
    by code_simp+
  have nosuf: "\<not> (\<exists>ext \<in> set [''.pdf'']. HasSuffix (ToLower (URL_String ?u)) ext)"
    using n u by (simp add: isDocument_def isDocumentLoop_iff)
  from slow_path_records_by_suffix
         [of "\<lambda>body. Some ?doc" "''<a href=\"/x.pdf?x=1\">t</a>''" ?doc "''/x.pdf?x=1''" "''t''" None
             "\<lambda>base ref. Some ?u" "plainURL ''https'' ''a.b'' ''/''" ?u
             NewSlowPathTokenizer 0 "[''.pdf'']"] ns
  have "SlowPathResult.URLs ?r = [URL_String ?u] \<and>
        map URL (Documents ?r) =
          (if \<exists>ext \<in> set [''.pdf'']. HasSuffix (ToLower (URL_String ?u)) ext
           then [URL_String ?u] else [])"
    by simp
  with nosuf u have "SlowPathResult.URLs ?r = [''https://a.b/x.pdf?x=1''] \<and> Documents ?r = []"
    by simp
  with q n show ?thesis by simp
qed

section \<open>Depth bound of the orchestrator\<close>

lemma processDiscoveredURL_requests:
  "requests (processDiscoveredURL urlParse c u d) = requests c \<or>
   (d < MaxDepth \<and>
    requests (processDiscoveredURL urlParse c u d) = requests c @ [(''GET'', u, decimal (d + 1))])"
  by (auto simp: processDiscoveredURL_def saveVisitedURL_def Let_def split: option.splits)

lemma processDiscoveredURL_too_deep:
  "\<not> d < MaxDepth \<Longrightarrow> processDiscoveredURL urlParse c u d = c"
  by (auto simp: processDiscoveredURL_def Let_def split: option.splits)

lemma processDiscoveredURLs_Cons:
  "processDiscoveredURLs urlParse c (u # urls) d =
     processDiscoveredURLs urlParse (processDiscoveredURL urlParse c u d) urls d"
  by (simp add: processDiscoveredURLs_def)

text \<open>
  C2. For the links found on a page fetched at depth \<open>d\<close>, the requests submitted to the
  collector are new ones appended to the earlier ones; every new request is for one of
  the links, carries depth \<open>d + 1\<close> in its context, and is made only if \<open>d + 1 \<le> MaxDepth\<close>;
  when \<open>d + 1 > MaxDepth\<close> nothing is submitted.
\<close>

theorem scheduled_within_MaxDepth:
  "\<exists>new. requests (processDiscoveredURLs urlParse c urls d) = requests c @ new \<and>
         (\<forall>r \<in> set new. d + 1 \<le> MaxDepth \<and> (\<exists>u \<in> set urls. r = (''GET'', u, decimal (d + 1)))) \<and>
         (d + 1 > MaxDepth \<longrightarrow> new = [])"
proof (induction urls arbitrary: c)
  case Nil
  then show ?case by (simp add: processDiscoveredURLs_def)
next
  case (Cons u urls)
  let ?c1 = "processDiscoveredURL urlParse c u d"
  from Cons.IH[of ?c1] obtain new where
    new: "requests (processDiscoveredURLs urlParse ?c1 urls d) = requests ?c1 @ new"
    and ok: "\<forall>r \<in> set new. d + 1 \<le> MaxDepth \<and> (\<exists>u \<in> set urls. r = (''GET'', u, decimal (d + 1)))"
    and deep: "d + 1 > MaxDepth \<longrightarrow> new = []"
    by blast
  from processDiscoveredURL_requests[of urlParse c u d]
  show ?case
  proof
    assume same: "requests ?c1 = requests c"
    have "requests (processDiscoveredURLs urlParse c (u # urls) d) = requests c @ new"
      using new same by (simp add: processDiscoveredURLs_Cons)
    moreover have "\<forall>r \<in> set new. d + 1 \<le> MaxDepth \<and>
                     (\<exists>v \<in> set (u # urls). r = (''GET'', v, decimal (d + 1)))"
      using ok by auto
    ultimately show ?thesis using deep by blast
  next
    assume sched: "d < MaxDepth \<and> requests ?c1 = requests c @ [(''GET'', u, decimal (d + 1))]"
    have "requests (processDiscoveredURLs urlParse c (u # urls) d) =
            requests c @ ((''GET'', u, decimal (d + 1)) # new)"
      using new sched by (simp add: processDiscoveredURLs_Cons)
    moreover have "\<forall>r \<in> set ((''GET'', u, decimal (d + 1)) # new). d + 1 \<le> MaxDepth \<and>
                     (\<exists>v \<in> set (u # urls). r = (''GET'', v, decimal (d + 1)))"
      using ok sched by auto
    moreover have "\<not> d + 1 > MaxDepth" using sched by simp
    ultimately show ?thesis by blast
  qed
qed

theorem scheduled_within_MaxDepth_witness:
  "12 + 1 \<le> MaxDepth \<and>
   requests (processDiscoveredURLs (\<lambda>s. Some (plainURL ''https'' ''ex'' (drop 10 s)))
               \<lparr>visitedURLsMap = Map.empty, requests = []\<rparr>
               [''https://ex/a'', ''https://ex/b''] 12)
     = [(''GET'', ''https://ex/a'', ''13''), (''GET'', ''https://ex/b'', ''13'')] \<and>
   13 + 1 > MaxDepth \<and>
   requests (processDiscoveredURLs (\<lambda>s. Some (plainURL ''https'' ''ex'' (drop 10 s)))
               \<lparr>visitedURLsMap = Map.empty, requests = []\<rparr>
               [''https://ex/a'', ''https://ex/b''] 13) = []"
proof -
  have d13: "(13::int) + 1 > MaxDepth" by (simp add: MaxDepth_def)
  from scheduled_within_MaxDepth
         [of "\<lambda>s. Some (plainURL ''https'' ''ex'' (drop 10 s))" "\<lparr>visitedURLsMap = Map.empty, requests = []\<rparr>"
             "[''https://ex/a'', ''https://ex/b'']" 13] d13
  have deep: "requests (processDiscoveredURLs (\<lambda>s. Some (plainURL ''https'' ''ex'' (drop 10 s)))
               \<lparr>visitedURLsMap = Map.empty, requests = []\<rparr>
               [''https://ex/a'', ''https://ex/b''] 13) = []"
    by auto
  have d12: "(12::int) + 1 \<le> MaxDepth" by (simp add: MaxDepth_def)
  have run: "requests (processDiscoveredURLs (\<lambda>s. Some (plainURL ''https'' ''ex'' (drop 10 s)))
               \<lparr>visitedURLsMap = Map.empty, requests = []\<rparr>
               [''https://ex/a'', ''https://ex/b''] 12)
     = [(''GET'', ''https://ex/a'', ''13''), (''GET'', ''https://ex/b'', ''13'')]"
    by code_simp
  from d12 run d13 deep show ?thesis by blast
qed

section \<open>File names\<close>


















section \<open>Normalization is idempotent\<close>















































































































end
